theory Spec2Isabelle
  imports Main "HOL-Library.AList"
begin

section \<open>Python strings\<close>

text \<open>
  A Python \<open>str\<close> is a sequence of Unicode code points. A code point is modelled as a
  natural number and a string as the list of its code points, so that \<open>len\<close>, indexing,
  slicing and \<open>strip\<close> count what Python counts. \<open>ustr\<close> embeds an ASCII literal and
  \<open>ch\<close> a single ASCII character.
\<close>

type_synonym pychar = nat
type_synonym pystr = "pychar list"

definition ustr :: "string \<Rightarrow> pystr" where
  "ustr cs = map of_char cs"

abbreviation (input) ch :: "char \<Rightarrow> pychar" where
  "ch c \<equiv> of_char c"

text \<open>
  The characters that \<open>str.strip()\<close>, called without argument, removes: those for which
  \<open>str.isspace\<close> holds. In CPython these are U+0009..U+000D, U+001C..U+0020, U+0085,
  U+00A0, U+1680, U+2000..U+200A, U+2028, U+2029, U+202F, U+205F and U+3000.
\<close>

definition py_isspace :: "pychar \<Rightarrow> bool" where
  "py_isspace c \<longleftrightarrow>
     (0x09 \<le> c \<and> c \<le> 0x0D) \<or> (0x1C \<le> c \<and> c \<le> 0x20) \<or> c = 0x85 \<or> c = 0xA0 \<or>
     c = 0x1680 \<or> (0x2000 \<le> c \<and> c \<le> 0x200A) \<or> c = 0x2028 \<or> c = 0x2029 \<or>
     c = 0x202F \<or> c = 0x205F \<or> c = 0x3000"

definition py_strip :: "pystr \<Rightarrow> pystr" where
  "py_strip s = rev (dropWhile py_isspace (rev (dropWhile py_isspace s)))"

text \<open>
  ``Empty or whitespace-only'': every character of the string is white space. The two
  compile functions test \<open>not code or not code.strip()\<close>; lemma \<open>blank_check\<close> below
  shows that this test is exactly \<open>is_blank\<close>.
\<close>

definition is_blank :: "pystr \<Rightarrow> bool" where
  "is_blank s = list_all py_isspace s"

text \<open>\<open>str(n)\<close> for a non-negative integer: its decimal digits.\<close>

fun str_of_nat :: "nat \<Rightarrow> pystr" where
  "str_of_nat n =
     (if n < 10 then [ch CHR ''0'' + n]
      else str_of_nat (n div 10) @ [ch CHR ''0'' + n mod 10])"

declare str_of_nat.simps [simp del]

section \<open>Python values\<close>

text \<open>
  The values \<open>json.loads\<close> returns. A \<open>float\<close> is kept as the decimal literal it is read
  from (Python converts that literal with \<open>float\<close>; floating-point values themselves are
  not modelled). A \<open>dict\<close> is an association list in insertion order with unique keys.
\<close>

datatype pyval =
    PyNone
  | PyBool bool
  | PyInt int
  | PyFloat pystr
  | PyStr pystr
  | PyList "pyval list"
  | PyDict "(pystr \<times> pyval) list"

text \<open>
  \<open>dict(pairs)\<close>: a later pair with a key already present replaces the value and keeps
  the key's position.
\<close>

definition dict :: "(pystr \<times> pyval) list \<Rightarrow> (pystr \<times> pyval) list" where
  "dict pairs = foldl (\<lambda>d (k, v). AList.update k v d) [] pairs"

section \<open>The JSON decoder behind \<open>json.loads\<close>\<close>

text \<open>
  \<open>validate_json\<close> and \<open>compile_with_witness\<close> call \<open>json.loads\<close> of the standard library
  with its default arguments. The model follows the library's decoder
  (\<open>json/decoder.py\<close>, \<open>json/scanner.py\<close>): \<open>scan_once\<close> dispatches on the next character,
  \<open>JSONObject\<close> and \<open>JSONArray\<close> parse the two containers, \<open>scanstring\<close> a string
  literal. Indices into the document are kept as in the library, so the positions in
  error messages are the library's. Where the accelerated scanner that CPython runs
  differs from the pure-Python one (the text and position of the errors for a control
  character or a bad escape in a string, and which \<open>\u\<close> escapes are accepted), the
  model follows the accelerated one. The interpreter's resource limits (recursion depth,
  the digit limit of integer conversion) are not modelled.

  Inside the scanner an exception is either \<open>StopIteration(idx)\<close> or
  \<open>JSONDecodeError(msg, s, pos)\<close> on the document \<open>s\<close> being scanned.
\<close>

datatype scan_exc = StopIteration nat | DecodeError pystr nat

text \<open>A scan returns the value read and the index after it, or raises.\<close>

type_synonym 'a scanned = "scan_exc + 'a \<times> nat"

text \<open>
  The building blocks, with \<open>s\<close> the document:
  \<^item> \<open>is_ws c\<close>: the character is one of \<open>WHITESPACE_STR\<close>, space, tab, line feed,
    carriage return;
  \<^item> \<open>ws_end s i\<close> is \<open>WHITESPACE.match(s, i).end()\<close>: the index after the white space that
    starts at \<open>i\<close> (a start beyond the end of \<open>s\<close> counts as the end of \<open>s\<close>);
  \<^item> \<open>nextchar s i\<close> is the slice \<open>s[i:i + 1]\<close>: one character, or nothing (\<open>None\<close>) at the
    end of \<open>s\<close>;
  \<^item> \<open>in_ws nc\<close> is \<open>nc in _ws\<close> for such a slice (the empty string is in every string);
  \<^item> \<open>slice s i j\<close> is \<open>s[i:j]\<close>.
\<close>

definition is_ws :: "pychar \<Rightarrow> bool" where
  "is_ws c \<longleftrightarrow> c = ch CHR '' '' \<or> c = 9 \<or> c = 10 \<or> c = 13"

definition ws_end :: "pystr \<Rightarrow> nat \<Rightarrow> nat" where
  "ws_end s i = (let j = min i (length s) in j + length (takeWhile is_ws (drop j s)))"

definition nextchar :: "pystr \<Rightarrow> nat \<Rightarrow> pychar option" where
  "nextchar s i = (if i < length s then Some (s ! i) else None)"

definition in_ws :: "pychar option \<Rightarrow> bool" where
  "in_ws nc = (case nc of None \<Rightarrow> True | Some c \<Rightarrow> is_ws c)"

definition slice :: "pystr \<Rightarrow> nat \<Rightarrow> nat \<Rightarrow> pystr" where
  "slice s i j = take (j - i) (drop i s)"

text \<open>
  Scanning a string literal: \<open>scanstring(s, end)\<close>, with \<open>end\<close> the index after the opening
  quote. The loop reads one character, or one escape, at a time and appends it to
  \<open>chunks\<close>. \<open>BACKSLASH\<close> is the table of the one-letter escapes, \<open>hex4 s i\<close> the value of
  the four hexadecimal digits at \<open>i\<close>. A high surrogate followed by the escape of a low
  one is joined with it into one code point
  (\<open>0x10000 + (((uni - 0xd800) << 10) | (uni2 - 0xdc00))\<close>, here with \<open>uni2 - 0xdc00\<close> below
  1024, so that the shift and the bitwise or are a product and a sum).
\<close>

definition hexval :: "pychar \<Rightarrow> nat option" where
  "hexval c =
     (if ch CHR ''0'' \<le> c \<and> c \<le> ch CHR ''9'' then Some (c - ch CHR ''0'')
      else if ch CHR ''a'' \<le> c \<and> c \<le> ch CHR ''f'' then Some (c - ch CHR ''a'' + 10)
      else if ch CHR ''A'' \<le> c \<and> c \<le> ch CHR ''F'' then Some (c - ch CHR ''A'' + 10)
      else None)"

fun hexdigits :: "pystr \<Rightarrow> nat \<Rightarrow> nat option" where
  "hexdigits [] acc = Some acc"
| "hexdigits (c # cs) acc =
     (case hexval c of None \<Rightarrow> None | Some d \<Rightarrow> hexdigits cs (acc * 16 + d))"

definition hex4 :: "pystr \<Rightarrow> nat \<Rightarrow> nat option" where
  "hex4 s i = (let t = slice s i (i + 4) in if length t = 4 then hexdigits t 0 else None)"

definition BACKSLASH :: "pychar \<Rightarrow> pychar option" where
  "BACKSLASH c =
     (if c = ch (CHR 0x22) then Some (ch (CHR 0x22))
      else if c = ch (CHR 0x5C) then Some (ch (CHR 0x5C))
      else if c = ch CHR ''/'' then Some (ch CHR ''/'')
      else if c = ch CHR ''b'' then Some 8
      else if c = ch CHR ''f'' then Some 12
      else if c = ch CHR ''n'' then Some 10
      else if c = ch CHR ''r'' then Some 13
      else if c = ch CHR ''t'' then Some 9
      else None)"

function scanstring_loop :: "pystr \<Rightarrow> nat \<Rightarrow> nat \<Rightarrow> pystr \<Rightarrow> pystr scanned" where
  "scanstring_loop s bgn en chunks =
     (if length s \<le> en then
        Inl (DecodeError (ustr ''Unterminated string starting at'') bgn)
      else
        let c = s ! en in
        if c = ch (CHR 0x22) then Inr (chunks, en + 1)
        else if c \<noteq> ch (CHR 0x5C) then
          (if c \<le> 0x1F then Inl (DecodeError (ustr ''Invalid control character at'') en)
           else scanstring_loop s bgn (en + 1) (chunks @ [c]))
        else if length s \<le> en + 1 then
          Inl (DecodeError (ustr ''Unterminated string starting at'') bgn)
        else
          let esc = s ! (en + 1) in
          if esc \<noteq> ch CHR ''u'' then
            (case BACKSLASH esc of
               None \<Rightarrow> Inl (DecodeError (ustr ''Invalid '' @ [ch (CHR 0x5C)] @ ustr ''escape'') en)
             | Some c' \<Rightarrow> scanstring_loop s bgn (en + 2) (chunks @ [c']))
          else if length s \<le> en + 6 then
            Inl (DecodeError (ustr ''Invalid '' @ [ch (CHR 0x5C)] @ ustr ''uXXXX escape'') (en + 1))
          else
            (case hex4 s (en + 2) of
               None \<Rightarrow> Inl (DecodeError (ustr ''Invalid '' @ [ch (CHR 0x5C)] @ ustr ''uXXXX escape'') (en + 1))
             | Some uni \<Rightarrow>
                 if 0xD800 \<le> uni \<and> uni \<le> 0xDBFF \<and> en + 12 < length s
                    \<and> slice s (en + 6) (en + 8) = [ch (CHR 0x5C), ch CHR ''u''] then
                   (case hex4 s (en + 8) of
                      None \<Rightarrow> Inl (DecodeError (ustr ''Invalid '' @ [ch (CHR 0x5C)] @ ustr ''uXXXX escape'') (en + 7))
                    | Some uni2 \<Rightarrow>
                        if 0xDC00 \<le> uni2 \<and> uni2 \<le> 0xDFFF then
                          scanstring_loop s bgn (en + 12)
                            (chunks @ [0x10000 + ((uni - 0xD800) * 1024 + (uni2 - 0xDC00))])
                        else scanstring_loop s bgn (en + 6) (chunks @ [uni]))
                 else scanstring_loop s bgn (en + 6) (chunks @ [uni])))"
  by pat_completeness auto
termination
  by (relation "measure (\<lambda>(s, bgn, en, chunks). length s - en)") auto

declare scanstring_loop.simps [simp del]

definition scanstring :: "pystr \<Rightarrow> nat \<Rightarrow> pystr scanned" where
  "scanstring s en = scanstring_loop s (en - 1) en []"

text \<open>
  A number: the three groups of
  \<open>(-?(?:0|[1-9]\d*))(\.\d+)?([eE][-+]?\d+)?\<close> (integer part, fraction, exponent).
\<close>

definition is_digit :: "pychar \<Rightarrow> bool" where
  "is_digit c \<longleftrightarrow> ch CHR ''0'' \<le> c \<and> c \<le> ch CHR ''9''"

definition digits_end :: "pystr \<Rightarrow> nat \<Rightarrow> nat" where
  "digits_end s i = i + length (takeWhile is_digit (drop i s))"

definition match_integer :: "pystr \<Rightarrow> nat \<Rightarrow> nat option" where
  "match_integer s idx =
     (let i = (if nextchar s idx = Some (ch CHR ''-'') then idx + 1 else idx) in
      case nextchar s i of
        None \<Rightarrow> None
      | Some c \<Rightarrow>
          if c = ch CHR ''0'' then Some (i + 1)
          else if ch CHR ''1'' \<le> c \<and> c \<le> ch CHR ''9'' then Some (digits_end s i)
          else None)"

definition match_frac :: "pystr \<Rightarrow> nat \<Rightarrow> nat" where
  "match_frac s i =
     (if nextchar s i = Some (ch CHR ''.'') \<and> i + 1 < digits_end s (i + 1)
      then digits_end s (i + 1) else i)"

definition match_exp :: "pystr \<Rightarrow> nat \<Rightarrow> nat" where
  "match_exp s i =
     (if nextchar s i = Some (ch CHR ''e'') \<or> nextchar s i = Some (ch CHR ''E'') then
        (let j = (if nextchar s (i + 1) = Some (ch CHR ''-'') \<or> nextchar s (i + 1) = Some (ch CHR ''+'')
                  then i + 2 else i + 1)
         in if j < digits_end s j then digits_end s j else i)
      else i)"

definition match_number :: "pystr \<Rightarrow> nat \<Rightarrow> (pystr \<times> pystr \<times> pystr \<times> nat) option" where
  "match_number s idx =
     (case match_integer s idx of
        None \<Rightarrow> None
      | Some i1 \<Rightarrow>
          (let i2 = match_frac s i1; i3 = match_exp s i2
           in Some (slice s idx i1, slice s i1 i2, slice s i2 i3, i3)))"

fun digits_value :: "pystr \<Rightarrow> nat \<Rightarrow> nat" where
  "digits_value [] acc = acc"
| "digits_value (c # cs) acc = digits_value cs (acc * 10 + (c - ch CHR ''0''))"

definition parse_int :: "pystr \<Rightarrow> int" where
  "parse_int t =
     (case t of
        [] \<Rightarrow> 0
      | c # cs \<Rightarrow> if c = ch CHR ''-'' then - int (digits_value cs 0) else int (digits_value t 0))"

text \<open>
  The branches of \<open>_scan_once\<close> that do not recurse: \<open>null\<close>, \<open>true\<close>, \<open>false\<close>, numbers
  and the constants \<open>NaN\<close>, \<open>Infinity\<close>, \<open>-Infinity\<close>.
\<close>

definition scan_constant :: "pystr \<Rightarrow> nat \<Rightarrow> pyval scanned" where
  "scan_constant s idx =
     (let nextchar = s ! idx in
      if nextchar = ch CHR ''n'' \<and> slice s idx (idx + 4) = ustr ''null'' then Inr (PyNone, idx + 4)
      else if nextchar = ch CHR ''t'' \<and> slice s idx (idx + 4) = ustr ''true'' then Inr (PyBool True, idx + 4)
      else if nextchar = ch CHR ''f'' \<and> slice s idx (idx + 5) = ustr ''false'' then Inr (PyBool False, idx + 5)
      else
        case match_number s idx of
          Some (integer, frac, exp, m_end) \<Rightarrow>
            if frac \<noteq> [] \<or> exp \<noteq> [] then Inr (PyFloat (integer @ frac @ exp), m_end)
            else Inr (PyInt (parse_int integer), m_end)
        | None \<Rightarrow>
            if nextchar = ch CHR ''N'' \<and> slice s idx (idx + 3) = ustr ''NaN'' then Inr (PyFloat (ustr ''NaN''), idx + 3)
            else if nextchar = ch CHR ''I'' \<and> slice s idx (idx + 8) = ustr ''Infinity'' then Inr (PyFloat (ustr ''Infinity''), idx + 8)
            else if nextchar = ch CHR ''-'' \<and> slice s idx (idx + 9) = ustr ''-Infinity'' then Inr (PyFloat (ustr ''-Infinity''), idx + 9)
            else Inl (StopIteration idx))"

text \<open>
  The white-space handling between the tokens of an object and of an array:
  \<^item> \<open>skip_ws2\<close> is
    \<open>try: if s[end] in _ws: end += 1; if s[end] in _ws: end = _w(s, end + 1).end()\<close>
    \<open>except IndexError: pass\<close>;
  \<^item> \<open>key_sep\<close> reads the \<open>:\<close> after a key and the white space after it;
  \<^item> \<open>obj_delim\<close> and \<open>arr_delim\<close> read the character after a value and return it with
    the index after it (\<open>None\<close> at the end of the document).
\<close>

definition skip_ws2 :: "pystr \<Rightarrow> nat \<Rightarrow> nat" where
  "skip_ws2 s en =
     (if en < length s \<and> is_ws (s ! en) then
        (if en + 1 < length s \<and> is_ws (s ! (en + 1)) then ws_end s (en + 2) else en + 1)
      else en)"

definition key_sep :: "pystr \<Rightarrow> nat \<Rightarrow> scan_exc + nat" where
  "key_sep s en =
     (if nextchar s en \<noteq> Some (ch CHR '':'') then
        (let en1 = ws_end s en in
         if nextchar s en1 \<noteq> Some (ch CHR '':'') then
           Inl (DecodeError (ustr ''Expecting ':' delimiter'') en1)
         else Inr (skip_ws2 s (en1 + 1)))
      else Inr (skip_ws2 s (en + 1)))"

definition obj_delim :: "pystr \<Rightarrow> nat \<Rightarrow> pychar option \<times> nat" where
  "obj_delim s en =
     (if en < length s then
        (if is_ws (s ! en) then (let en1 = ws_end s (en + 1) in (nextchar s en1, en1 + 1))
         else (Some (s ! en), en + 1))
      else (None, en + 1))"

definition arr_delim :: "pystr \<Rightarrow> nat \<Rightarrow> pychar option \<times> nat" where
  "arr_delim s en =
     (let nc = nextchar s en in
      if in_ws nc then (let en1 = ws_end s (en + 1) in (nextchar s en1, en1 + 1))
      else (nc, en + 1))"

text \<open>
  The scanner. \<open>JSONObject_loop\<close> and \<open>JSONArray_loop\<close> are the \<open>while True\<close> loops of
  \<open>JSONObject\<close> and \<open>JSONArray\<close>; \<open>pairs\<close> and \<open>vals\<close> are the lists they append to.
\<close>

function scan_once :: "pystr \<Rightarrow> nat \<Rightarrow> pyval scanned"
  and JSONObject :: "pystr \<Rightarrow> nat \<Rightarrow> pyval scanned"
  and JSONObject_loop :: "pystr \<Rightarrow> nat \<Rightarrow> (pystr \<times> pyval) list \<Rightarrow> pyval scanned"
  and JSONArray :: "pystr \<Rightarrow> nat \<Rightarrow> pyval scanned"
  and JSONArray_loop :: "pystr \<Rightarrow> nat \<Rightarrow> pyval list \<Rightarrow> pyval scanned"
where
  "scan_once s idx =
     (if length s \<le> idx then Inl (StopIteration idx)
      else
        let nextchar = s ! idx in
        if nextchar = ch (CHR 0x22) then
          (case scanstring s (idx + 1) of
             Inl e \<Rightarrow> Inl e
           | Inr (r, en) \<Rightarrow> Inr (PyStr r, en))
        else if nextchar = ch CHR ''{'' then JSONObject s (idx + 1)
        else if nextchar = ch CHR ''['' then JSONArray s (idx + 1)
        else scan_constant s idx)"
| "JSONObject s en =
     (let nc = nextchar s en in
      if nc \<noteq> Some (ch (CHR 0x22)) then
        (let en1 = (if in_ws nc then ws_end s en else en);
             nc1 = nextchar s en1
         in if nc1 = Some (ch CHR ''}'') then Inr (PyDict [], en1 + 1)
            else if nc1 \<noteq> Some (ch (CHR 0x22)) then
              Inl (DecodeError (ustr ''Expecting property name enclosed in double quotes'') en1)
            else JSONObject_loop s (en1 + 1) [])
      else JSONObject_loop s (en + 1) [])"
| "JSONObject_loop s en pairs =
     (case scanstring s en of
        Inl e \<Rightarrow> Inl e
      | Inr (key, en1) \<Rightarrow>
          (case key_sep s en1 of
             Inl e \<Rightarrow> Inl e
           | Inr en2 \<Rightarrow>
               (case scan_once s en2 of
                  Inl (StopIteration i) \<Rightarrow> Inl (DecodeError (ustr ''Expecting value'') i)
                | Inl (DecodeError m p) \<Rightarrow> Inl (DecodeError m p)
                | Inr (v, en3) \<Rightarrow>
                    (let pairs' = pairs @ [(key, v)];
                         (nc, en4) = obj_delim s en3
                     in if nc = Some (ch CHR ''}'') then Inr (PyDict (dict pairs'), en4)
                        else if nc \<noteq> Some (ch CHR '','') then
                          Inl (DecodeError (ustr ''Expecting ',' delimiter'') (en4 - 1))
                        else
                          (let en5 = ws_end s en4 in
                           if nextchar s en5 \<noteq> Some (ch (CHR 0x22)) then
                             Inl (DecodeError (ustr ''Expecting property name enclosed in double quotes'') en5)
                           else JSONObject_loop s (en5 + 1) pairs')))))"
| "JSONArray s en =
     (let nc = nextchar s en;
          en1 = (if in_ws nc then ws_end s (en + 1) else en);
          nc1 = nextchar s en1
      in if nc1 = Some (ch CHR '']'') then Inr (PyList [], en1 + 1)
         else JSONArray_loop s en1 [])"
| "JSONArray_loop s en vals =
     (case scan_once s en of
        Inl (StopIteration i) \<Rightarrow> Inl (DecodeError (ustr ''Expecting value'') i)
      | Inl (DecodeError m p) \<Rightarrow> Inl (DecodeError m p)
      | Inr (v, en1) \<Rightarrow>
          (let vals' = vals @ [v];
               (nc, en2) = arr_delim s en1
           in if nc = Some (ch CHR '']'') then Inr (PyList vals', en2)
              else if nc \<noteq> Some (ch CHR '','') then
                Inl (DecodeError (ustr ''Expecting ',' delimiter'') (en2 - 1))
              else JSONArray_loop s (skip_ws2 s en2) vals'))"
  by pat_completeness auto


text \<open>
  Termination: every successful scan ends to the right of where it started, so each
  loop iteration and each nested value starts on a shorter rest of the document.
\<close>

lemma ws_end_le: "ws_end s i \<le> length s"
proof -
  have "length (takeWhile is_ws (drop (min i (length s)) s)) \<le> length (drop (min i (length s)) s)"
    by (rule length_takeWhile_le)
  then show ?thesis by (simp add: ws_end_def Let_def)
qed

lemma ws_end_ge: "min i (length s) \<le> ws_end s i"
  by (simp add: ws_end_def Let_def)

lemma ws_end_rem: "length s - ws_end s i \<le> length s - i"
  using ws_end_ge [of i s] by (simp add: min_def split: if_splits)

lemma skip_ws2_rem: "length s - skip_ws2 s i \<le> length s - i"
  using ws_end_rem [of s "i + 2"] by (auto simp: skip_ws2_def)

lemma key_sep_rem: "key_sep s i = Inr j \<Longrightarrow> length s - j \<le> length s - i"
  using skip_ws2_rem [of s "i + 1"] skip_ws2_rem [of s "ws_end s i + 1"] ws_end_rem [of s i]
  by (auto simp: key_sep_def Let_def split: if_splits)

lemma obj_delim_rem: "obj_delim s i = (nc, j) \<Longrightarrow> length s - j \<le> length s - i"
  using ws_end_rem [of s "i + 1"]
  by (auto simp: obj_delim_def Let_def split: if_splits)

lemma arr_delim_rem: "arr_delim s i = (nc, j) \<Longrightarrow> length s - j \<le> length s - i"
  using ws_end_rem [of s "i + 1"]
  by (auto simp: arr_delim_def Let_def split: if_splits)

lemma scanstring_loop_progress:
  "scanstring_loop s b i acc = Inr (r, j) \<Longrightarrow> i < j \<and> j \<le> length s"
proof (induction "length s - i" arbitrary: i acc rule: less_induct)
  case less
  have step: "i < j \<and> j \<le> length s"
    if "scanstring_loop s b (i + k) acc' = Inr (r, j)" and "i < length s" and "0 < k" for k acc'
  proof -
    have "length s - (i + k) < length s - i" using that by arith
    from less.hyps [OF this that(1)] show ?thesis by simp
  qed
  from less.prems step [of 1] step [of 2] step [of 6] step [of 12] show ?case
    apply (subst (asm) scanstring_loop.simps)
    apply (auto simp: Let_def split: if_splits option.splits)
    done
qed

lemma scanstring_progress: "scanstring s i = Inr (r, j) \<Longrightarrow> i < j \<and> j \<le> length s"
  unfolding scanstring_def by (rule scanstring_loop_progress)

lemma digits_end_ge: "i \<le> digits_end s i"
  by (simp add: digits_end_def)

lemma digits_end_gt: "i < length s \<Longrightarrow> is_digit (s ! i) \<Longrightarrow> i < digits_end s i"
  by (simp add: digits_end_def Cons_nth_drop_Suc [symmetric])

lemma match_integer_progress: "match_integer s i = Some j \<Longrightarrow> i < j"
  using digits_end_gt [of i s] digits_end_gt [of "i + 1" s]
  by (auto simp: match_integer_def Let_def nextchar_def is_digit_def split: if_splits)

lemma match_frac_ge: "i \<le> match_frac s i"
  using digits_end_ge [of "i + 1" s] by (simp add: match_frac_def)

lemma match_exp_ge: "i \<le> match_exp s i"
  using digits_end_ge [of "i + 1" s] digits_end_ge [of "i + 2" s]
  by (simp add: match_exp_def Let_def)

lemma match_number_progress:
  assumes "match_number s i = Some (a, b, c, j)"
  shows "i < j"
proof -
  from assms obtain i1 where i1: "match_integer s i = Some i1"
    and j: "j = match_exp s (match_frac s i1)"
    by (auto simp: match_number_def Let_def split: option.splits)
  from match_integer_progress [OF i1] match_frac_ge [of i1 s] match_exp_ge [of "match_frac s i1" s] j
  show ?thesis by simp
qed

lemma scan_constant_progress: "scan_constant s i = Inr (v, j) \<Longrightarrow> i < j"
  by (auto simp: scan_constant_def Let_def split: if_splits option.splits dest: match_number_progress)


lemma scan_progress_partial:
  "scan_once_JSONObject_JSONObject_loop_JSONArray_JSONArray_loop_dom (Inl (Inl (s, idx))) \<Longrightarrow>
     scan_once s idx = Inr (v, e) \<Longrightarrow> length s - e < length s - idx"
  "scan_once_JSONObject_JSONObject_loop_JSONArray_JSONArray_loop_dom (Inl (Inr (s, en))) \<Longrightarrow>
     JSONObject s en = Inr (v, e) \<Longrightarrow> length s - e \<le> length s - en"
  "scan_once_JSONObject_JSONObject_loop_JSONArray_JSONArray_loop_dom (Inr (Inl (s, en, pairs))) \<Longrightarrow>
     JSONObject_loop s en pairs = Inr (v, e) \<Longrightarrow> length s - e \<le> length s - en"
  "scan_once_JSONObject_JSONObject_loop_JSONArray_JSONArray_loop_dom (Inr (Inr (Inl (s, en)))) \<Longrightarrow>
     JSONArray s en = Inr (v, e) \<Longrightarrow> length s - e \<le> length s - en"
  "scan_once_JSONObject_JSONObject_loop_JSONArray_JSONArray_loop_dom (Inr (Inr (Inr (s, en, vals)))) \<Longrightarrow>
     JSONArray_loop s en vals = Inr (v, e) \<Longrightarrow> length s - e \<le> length s - en"
proof (induct s idx and s en and s en pairs and s en and s en vals
       arbitrary: v e and v e and v e and v e and v e
       rule: scan_once_JSONObject_JSONObject_loop_JSONArray_JSONArray_loop.pinduct)
  case (1 s idx)
  from "1.hyps"(1) have dom: "scan_once_JSONObject_JSONObject_loop_JSONArray_JSONArray_loop_dom (Inl (Inl (s, idx)))" .
  from "1.prems" have eq: "scan_once s idx = Inr (v, e)" .
  show ?case
  proof (cases "length s \<le> idx")
    case True
    with eq show ?thesis by (simp add: scan_once.psimps [OF dom])
  next
    case False
    then have lt: "idx < length s" by simp
    consider (str) "s ! idx = ch (CHR 0x22)"
      | (obj) "s ! idx \<noteq> ch (CHR 0x22)" "s ! idx = ch CHR ''{''"
      | (arr) "s ! idx \<noteq> ch (CHR 0x22)" "s ! idx \<noteq> ch CHR ''{''" "s ! idx = ch CHR ''[''"
      | (const) "s ! idx \<noteq> ch (CHR 0x22)" "s ! idx \<noteq> ch CHR ''{''" "s ! idx \<noteq> ch CHR ''[''"
      by blast
    then show ?thesis
    proof cases
      case str
      with eq False obtain r where "scanstring s (idx + 1) = Inr (r, e)"
        by (auto simp: scan_once.psimps [OF dom] Let_def split: sum.splits)
      from scanstring_progress [OF this] lt show ?thesis by arith
    next
      case obj
      with eq False have "JSONObject s (idx + 1) = Inr (v, e)"
        by (simp add: scan_once.psimps [OF dom] Let_def)
      from "1.hyps"(2) [OF False refl obj this] lt show ?thesis by arith
    next
      case arr
      with eq False have "JSONArray s (idx + 1) = Inr (v, e)"
        by (simp add: scan_once.psimps [OF dom] Let_def)
      from "1.hyps"(3) [OF False refl arr this] lt show ?thesis by arith
    next
      case const
      with eq False have "scan_constant s idx = Inr (v, e)"
        by (simp add: scan_once.psimps [OF dom] Let_def)
      from scan_constant_progress [OF this] lt show ?thesis by arith
    qed
  qed
next
  case (2 s en)
  from "2.hyps"(1) have dom: "scan_once_JSONObject_JSONObject_loop_JSONArray_JSONArray_loop_dom (Inl (Inr (s, en)))" .
  from "2.prems" have eq: "JSONObject s en = Inr (v, e)" .
  define nc where "nc = nextchar s en"
  define en1 where "en1 = (if in_ws nc then ws_end s en else en)"
  define nc1 where "nc1 = nextchar s en1"
  have en1: "length s - en1 \<le> length s - en"
    using ws_end_rem [of s en] by (simp add: en1_def)
  show ?case
  proof (cases "nc = Some (ch (CHR 0x22))")
    case True
    with eq have "JSONObject_loop s (en + 1) [] = Inr (v, e)"
      by (simp add: JSONObject.psimps [OF dom] Let_def nc_def)
    from "2.hyps"(3) [OF nc_def _ this] True show ?thesis by simp
  next
    case False
    show ?thesis
    proof (cases "nc1 = Some (ch CHR ''}'')")
      case True
      with eq False have "e = en1 + 1"
        by (simp add: JSONObject.psimps [OF dom] Let_def nc_def nc1_def en1_def)
      with en1 show ?thesis by simp
    next
      case nb: False
      with eq False have q: "nc1 = Some (ch (CHR 0x22))" and "JSONObject_loop s (en1 + 1) [] = Inr (v, e)"
        by (auto simp: JSONObject.psimps [OF dom] Let_def nc_def nc1_def en1_def split: if_splits)
      from "2.hyps"(2) [OF nc_def False en1_def nc1_def nb _ this(2)] q en1
      show ?thesis by simp
    qed
  qed
next
  case (3 s en pairs)
  from "3.hyps"(1) have dom: "scan_once_JSONObject_JSONObject_loop_JSONArray_JSONArray_loop_dom (Inr (Inl (s, en, pairs)))" .
  from "3.prems" have eq: "JSONObject_loop s en pairs = Inr (v, e)" .
  from eq obtain key en1 where ss: "scanstring s en = Inr (key, en1)"
    by (cases "scanstring s en") (auto simp: JSONObject_loop.psimps [OF dom])
  from eq ss obtain en2 where ks: "key_sep s en1 = Inr en2"
    by (cases "key_sep s en1") (auto simp: JSONObject_loop.psimps [OF dom])
  from eq ss ks obtain v' en3 where so: "scan_once s en2 = Inr (v', en3)"
    by (cases "scan_once s en2")
       (auto simp: JSONObject_loop.psimps [OF dom] split: scan_exc.splits)
  obtain nc en4 where od: "obj_delim s en3 = (nc, en4)"
    by (cases "obj_delim s en3")
  define en5 where "en5 = ws_end s en4"
  from eq ss ks so od
  have alt: "(nc = Some (ch CHR ''}'') \<and> e = en4) \<or>
             (nc \<noteq> Some (ch CHR ''}'') \<and> nc = Some (ch CHR '','') \<and> nextchar s en5 = Some (ch (CHR 0x22))
              \<and> JSONObject_loop s (en5 + 1) (pairs @ [(key, v')]) = Inr (v, e))"
    by (auto simp: JSONObject_loop.psimps [OF dom] Let_def en5_def split: if_splits)
  have b1: "length s - en1 \<le> length s - en"
    using scanstring_progress [OF ss] by arith
  have b2: "length s - en2 \<le> length s - en1"
    by (rule key_sep_rem [OF ks])
  have b3: "length s - en3 \<le> length s - en2"
    using "3.hyps"(2) [OF ss refl ks so] by simp
  have b4: "length s - en4 \<le> length s - en3"
    by (rule obj_delim_rem [OF od])
  from alt show ?case
  proof
    assume "nc = Some (ch CHR ''}'') \<and> e = en4"
    with b1 b2 b3 b4 show ?thesis by simp
  next
    assume r: "nc \<noteq> Some (ch CHR ''}'') \<and> nc = Some (ch CHR '','') \<and> nextchar s en5 = Some (ch (CHR 0x22))
              \<and> JSONObject_loop s (en5 + 1) (pairs @ [(key, v')]) = Inr (v, e)"
    then have "length s - e \<le> length s - (en5 + 1)"
      using "3.hyps"(3) [OF ss refl ks so refl refl od [symmetric] refl _ _ en5_def, of v e]
      by simp
    moreover have "length s - en5 \<le> length s - en4"
      unfolding en5_def by (rule ws_end_rem)
    ultimately show ?thesis using b1 b2 b3 b4 by arith
  qed
next
  case (4 s en)
  from "4.hyps"(1) have dom: "scan_once_JSONObject_JSONObject_loop_JSONArray_JSONArray_loop_dom (Inr (Inr (Inl (s, en))))" .
  from "4.prems" have eq: "JSONArray s en = Inr (v, e)" .
  define nc where "nc = nextchar s en"
  define en1 where "en1 = (if in_ws nc then ws_end s (en + 1) else en)"
  define nc1 where "nc1 = nextchar s en1"
  have en1: "length s - en1 \<le> length s - en"
    using ws_end_rem [of s "en + 1"] by (auto simp: en1_def)
  show ?case
  proof (cases "nc1 = Some (ch CHR '']'')")
    case True
    with eq have "e = en1 + 1"
      by (simp add: JSONArray.psimps [OF dom] Let_def nc_def nc1_def en1_def)
    with en1 show ?thesis by simp
  next
    case False
    with eq have "JSONArray_loop s en1 [] = Inr (v, e)"
      by (simp add: JSONArray.psimps [OF dom] Let_def nc_def nc1_def en1_def)
    from "4.hyps"(2) [OF nc_def en1_def nc1_def False this] en1
    show ?thesis by simp
  qed
next
  case (5 s en vals)
  from "5.hyps"(1) have dom: "scan_once_JSONObject_JSONObject_loop_JSONArray_JSONArray_loop_dom (Inr (Inr (Inr (s, en, vals))))" .
  from "5.prems" have eq: "JSONArray_loop s en vals = Inr (v, e)" .
  from eq obtain v' en1 where so: "scan_once s en = Inr (v', en1)"
    by (cases "scan_once s en")
       (auto simp: JSONArray_loop.psimps [OF dom] split: scan_exc.splits)
  obtain nc en2 where ad: "arr_delim s en1 = (nc, en2)"
    by (cases "arr_delim s en1")
  from eq so ad
  have alt: "(nc = Some (ch CHR '']'') \<and> e = en2) \<or>
             (nc \<noteq> Some (ch CHR '']'') \<and> nc = Some (ch CHR '','')
              \<and> JSONArray_loop s (skip_ws2 s en2) (vals @ [v']) = Inr (v, e))"
    by (auto simp: JSONArray_loop.psimps [OF dom] Let_def split: if_splits)
  have b1: "length s - en1 \<le> length s - en"
    using "5.hyps"(2) [OF so] by simp
  have b2: "length s - en2 \<le> length s - en1"
    by (rule arr_delim_rem [OF ad])
  from alt show ?case
  proof
    assume "nc = Some (ch CHR '']'') \<and> e = en2"
    with b1 b2 show ?thesis by simp
  next
    assume r: "nc \<noteq> Some (ch CHR '']'') \<and> nc = Some (ch CHR '','')
              \<and> JSONArray_loop s (skip_ws2 s en2) (vals @ [v']) = Inr (v, e)"
    then have "length s - e \<le> length s - skip_ws2 s en2"
      using "5.hyps"(3) [OF so refl refl ad [symmetric] refl, of v e] by simp
    with skip_ws2_rem [of s en2] b1 b2 show ?thesis by arith
  qed
qed


termination scan_once
proof (relation "measure (\<lambda>x. case x of
     Inl (Inl (s, idx)) \<Rightarrow> 3 * (length s - idx)
   | Inl (Inr (s, en)) \<Rightarrow> 3 * (length s - en) + 2
   | Inr (Inl (s, en, pairs)) \<Rightarrow> 3 * (length s - en) + 1
   | Inr (Inr (Inl (s, en))) \<Rightarrow> 3 * (length s - en) + 2
   | Inr (Inr (Inr (s, en, vals))) \<Rightarrow> 3 * (length s - en) + 1)", goal_cases)
  case 1
  show ?case by simp
next
  case (2 s idx x)
  then show ?case by simp
next
  case (3 s idx x)
  then show ?case by simp
next
  case (4 s en x xa xb)
  then show ?case using ws_end_rem [of s en] by auto
next
  case (5 s en x)
  then show ?case by simp
next
  case (6 s en pairs b x y ba)
  then show ?case
    using scanstring_progress [of s en x y] key_sep_rem [of s y ba] by auto
next
  case (7 s en pairs b x y ba bb xa ya xb xc xd yb xe)
  then show ?case
    using scanstring_progress [of s en x y] key_sep_rem [of s y ba]
      scan_progress_partial(1) [of s ba xa ya] obj_delim_rem [of s ya xd yb] ws_end_rem [of s yb]
    by auto arith
next
  case (8 s en x xa xb)
  then show ?case using ws_end_rem [of s "en + 1"] by auto
next
  case (9 s en vals)
  then show ?case by simp
next
  case (10 s en vals b x y xa xb xc ya)
  then show ?case
    using scan_progress_partial(1) [of s en x y] arr_delim_rem [of s y xc ya] skip_ws2_rem [of s ya]
    by auto
qed


declare scan_once.simps [simp del] JSONObject.simps [simp del] JSONObject_loop.simps [simp del]
  JSONArray.simps [simp del] JSONArray_loop.simps [simp del]

text \<open>
  \<open>JSONDecoder.decode\<close>, \<open>raw_decode\<close> and \<open>json.loads\<close> on a \<open>str\<close>; \<open>JSONDecodeError\<close>
  with its message, document and position, and \<open>str(e)\<close>.
\<close>

datatype JSONDecodeError = JSONDecodeError (msg: pystr) (doc: pystr) (pos: nat)

definition raw_decode :: "pystr \<Rightarrow> nat \<Rightarrow> JSONDecodeError + pyval \<times> nat" where
  "raw_decode s idx =
     (case scan_once s idx of
        Inl (StopIteration i) \<Rightarrow> Inl (JSONDecodeError (ustr ''Expecting value'') s i)
      | Inl (DecodeError m p) \<Rightarrow> Inl (JSONDecodeError m s p)
      | Inr r \<Rightarrow> Inr r)"

definition decode :: "pystr \<Rightarrow> JSONDecodeError + pyval" where
  "decode s =
     (case raw_decode s (ws_end s 0) of
        Inl e \<Rightarrow> Inl e
      | Inr (obj, en) \<Rightarrow>
          (let en' = ws_end s en in
           if en' \<noteq> length s then Inl (JSONDecodeError (ustr ''Extra data'') s en')
           else Inr obj))"

definition json_loads :: "pystr \<Rightarrow> JSONDecodeError + pyval" where
  "json_loads s =
     (if take 1 s = [0xFEFF] then
        Inl (JSONDecodeError (ustr ''Unexpected UTF-8 BOM (decode using utf-8-sig)'') s 0)
      else decode s)"

definition lineno :: "pystr \<Rightarrow> nat \<Rightarrow> nat" where
  "lineno d p = length (filter (\<lambda>c. c = 10) (take p d)) + 1"

definition colno :: "pystr \<Rightarrow> nat \<Rightarrow> nat" where
  "colno d p = length (takeWhile (\<lambda>c. c \<noteq> 10) (rev (take p d))) + 1"

definition str_JSONDecodeError :: "JSONDecodeError \<Rightarrow> pystr" where
  "str_JSONDecodeError e =
     msg e @ ustr '': line '' @ str_of_nat (lineno (doc e) (pos e))
       @ ustr '' column '' @ str_of_nat (colno (doc e) (pos e))
       @ ustr '' (char '' @ str_of_nat (pos e) @ ustr '')''"



section \<open>The result object and the exceptions that escape\<close>

text \<open>
  \<open>class CompileResult\<close>: the three attributes that \<open>__init__\<close> sets, each \<open>None\<close> unless
  given. \<open>cmr\<close> and \<open>error\<close> hold a string or \<open>None\<close>; \<open>witness_data\<close> holds any Python
  value, \<open>PyNone\<close> when absent.
\<close>

record CompileResult =
  cmr :: "pystr option"
  error :: "pystr option"
  witness_data :: pyval

text \<open>
  An exception that a function does not catch leaves it. \<open>len\<close> raises \<open>TypeError\<close> on
  a value that has no length.
\<close>

datatype py_exception = Raised_JSONDecodeError JSONDecodeError | Raised_TypeError pystr

definition py_len :: "pyval \<Rightarrow> py_exception + nat" where
  "py_len v =
     (case v of
        PyStr s \<Rightarrow> Inr (length s)
      | PyList xs \<Rightarrow> Inr (length xs)
      | PyDict kvs \<Rightarrow> Inr (length kvs)
      | PyNone \<Rightarrow> Inl (Raised_TypeError (ustr ''object of type 'NoneType' has no len()''))
      | PyBool b \<Rightarrow> Inl (Raised_TypeError (ustr ''object of type 'bool' has no len()''))
      | PyInt i \<Rightarrow> Inl (Raised_TypeError (ustr ''object of type 'int' has no len()''))
      | PyFloat f \<Rightarrow> Inl (Raised_TypeError (ustr ''object of type 'float' has no len()'')))"

section \<open>Logging\<close>

text \<open>
  The module configures logging at level INFO, so every \<open>logger.info\<close> call emits its
  message. The list of emitted messages is the only state outside their arguments that
  the compile functions touch; it is passed in and returned.
\<close>

type_synonym log = "pystr list"

definition logger_info :: "pystr \<Rightarrow> log \<Rightarrow> log" where
  "logger_info m lg = lg @ [m]"

section \<open>The compile functions\<close>

text \<open>\<open>validate_json(data)\<close> returns the pair \<open>(is_valid, error_msg)\<close>.\<close>

definition validate_json :: "pystr \<Rightarrow> bool \<times> pystr" where
  "validate_json data =
     (case json_loads data of
        Inr v \<Rightarrow> (True, [])
      | Inl e \<Rightarrow> (False, ustr ''Invalid JSON: '' @ str_JSONDecodeError e))"

text \<open>
  \<open>compile_simplicity(code)\<close>. The CMR is the string literal of the source, the same for
  every input that passes the emptiness check.
\<close>

definition compile_simplicity :: "pystr \<Rightarrow> log \<Rightarrow> CompileResult \<times> log" where
  "compile_simplicity code lg =
     (if code = [] \<or> py_strip code = [] then
        (\<lparr>cmr = None, error = Some (ustr ''Code is empty''), witness_data = PyNone\<rparr>, lg)
      else
        (let lg1 = logger_info (ustr ''Compiling code: '' @ take 50 code @ ustr ''...'') lg;
             cmr = ustr ''c40a10263f7436b4160acbef1c36fba4be4d95df181a968afeab5eac247adff7''
         in (\<lparr>cmr = Some cmr, error = None, witness_data = PyNone\<rparr>, lg1)))"

text \<open>
  \<open>compile_with_witness(code, witness_data)\<close>; the argument \<open>witness_data\<close> is called
  \<open>witness_text\<close> here, apart from the attribute of the result. The function returns a \<open>CompileResult\<close>
  (\<open>Inr\<close>) or is left by an exception (\<open>Inl\<close>). The second \<open>logger.info\<close> formats
  \<open>len(json.loads(witness_data))\<close> before it logs, outside any \<open>try\<close>: an exception of
  \<open>json.loads\<close> or of \<open>len\<close> there leaves the function. The \<open>json.loads\<close> that follows is
  inside \<open>try\<close>, and its \<open>JSONDecodeError\<close> becomes the error of the result.
\<close>

definition compile_with_witness ::
  "pystr \<Rightarrow> pystr \<Rightarrow> log \<Rightarrow> (py_exception + CompileResult) \<times> log" where
  "compile_with_witness code witness_text lg =
     (if code = [] \<or> py_strip code = [] then
        (Inr \<lparr>cmr = None, error = Some (ustr ''Code is empty''), witness_data = PyNone\<rparr>, lg)
      else if witness_text = [] \<or> py_strip witness_text = [] then
        (Inr \<lparr>cmr = None, error = Some (ustr ''Witness data is empty''), witness_data = PyNone\<rparr>, lg)
      else
        (let (is_valid, error_msg) = validate_json witness_text in
         if \<not> is_valid then
           (Inr \<lparr>cmr = None, error = Some error_msg, witness_data = PyNone\<rparr>, lg)
         else
           (let lg1 = logger_info (ustr ''Compiling with witness: '' @ take 50 code @ ustr ''...'') lg in
            case json_loads witness_text of
              Inl e \<Rightarrow> (Inl (Raised_JSONDecodeError e), lg1)
            | Inr parsed \<Rightarrow>
                (case py_len parsed of
                   Inl exn \<Rightarrow> (Inl exn, lg1)
                 | Inr n \<Rightarrow>
                     (let lg2 = logger_info (ustr ''Witness variables count: '' @ str_of_nat n) lg1 in
                      case json_loads witness_text of
                        Inl e \<Rightarrow>
                          (Inr \<lparr>cmr = None,
                                error = Some (ustr ''Witness parse error: '' @ str_JSONDecodeError e),
                                witness_data = PyNone\<rparr>, lg2)
                      | Inr witness_json \<Rightarrow>
                          (let cmr = ustr ''c40a10263f7436b4160acbef1c36fba4be4d95df181a968afeab5eac247adff7''
                           in (Inr \<lparr>cmr = Some cmr, error = None, witness_data = witness_json\<rparr>,
                               lg2)))))))"

section \<open>Notions of the specification\<close>

text \<open>
  Names for what the specification talks about: the CMR literal that both compile functions
  return, ``lowercase hexadecimal string'', and the result for an empty source.
\<close>

definition placeholder_cmr :: pystr where
  "placeholder_cmr = ustr ''c40a10263f7436b4160acbef1c36fba4be4d95df181a968afeab5eac247adff7''"

definition is_lower_hex :: "pystr \<Rightarrow> bool" where
  "is_lower_hex h = list_all (\<lambda>c. c \<in> set (ustr ''0123456789abcdef'')) h"

definition code_empty_result :: CompileResult where
  "code_empty_result = \<lparr>cmr = None, error = Some (ustr ''Code is empty''), witness_data = PyNone\<rparr>"

section \<open>Properties of the model\<close>

subsection \<open>The emptiness check\<close>

lemma dropWhile_all_iff: "(\<forall>x\<in>set (dropWhile P s). P x) \<longleftrightarrow> (\<forall>x\<in>set s. P x)"
proof
  assume a: "\<forall>x\<in>set (dropWhile P s). P x"
  have "set s = set (takeWhile P s) \<union> set (dropWhile P s)"
    by (metis set_append takeWhile_dropWhile_id)
  with a show "\<forall>x\<in>set s. P x"
    by (auto dest: set_takeWhileD)
next
  assume "\<forall>x\<in>set s. P x"
  then show "\<forall>x\<in>set (dropWhile P s). P x"
    by (auto dest: set_dropWhileD)
qed

lemma blank_check: "(s = [] \<or> py_strip s = []) \<longleftrightarrow> is_blank s"
proof -
  have "py_strip s = [] \<longleftrightarrow> (\<forall>c\<in>set (dropWhile py_isspace s). py_isspace c)"
    by (simp add: py_strip_def dropWhile_eq_Nil_conv)
  then have "py_strip s = [] \<longleftrightarrow> is_blank s"
    by (simp add: dropWhile_all_iff is_blank_def list_all_iff)
  moreover have "s = [] \<Longrightarrow> is_blank s"
    by (simp add: is_blank_def)
  ultimately show ?thesis by blast
qed

lemma blank_empty: "is_blank []"
  by (simp add: is_blank_def)

lemma blank_ws: "is_blank (ustr '' '' @ [9, 10])"
  by (simp add: is_blank_def ustr_def py_isspace_def)


lemma not_blank_ustr_f: "\<not> is_blank (ustr (CHR ''f'' # cs))"
  by (simp add: is_blank_def ustr_def py_isspace_def)

lemma not_blank_ustr_m: "\<not> is_blank (ustr (CHR ''m'' # cs))"
  by (simp add: is_blank_def ustr_def py_isspace_def)

lemma not_blank_ustr_n: "\<not> is_blank (ustr (CHR ''n'' # cs))"
  by (simp add: is_blank_def ustr_def py_isspace_def)

subsection \<open>The decoder rejects an empty or whitespace-only document\<close>

lemma ws_end_0: "ws_end s 0 = length (takeWhile is_ws s)"
  by (simp add: ws_end_def)

lemma ws_end_0_not_ws: "ws_end s 0 < length s \<Longrightarrow> \<not> is_ws (s ! ws_end s 0)"
  unfolding ws_end_0 by (rule nth_length_takeWhile)

lemma scan_once_space:
  assumes "i < length s" and "py_isspace (s ! i)" and "\<not> is_ws (s ! i)"
  shows "scan_once s i = Inl (StopIteration i)"
proof -
  let ?c = "s ! i"
  from assms(2,3) have c: "?c = 11 \<or> ?c = 12 \<or> 28 \<le> ?c"
    by (auto simp: py_isspace_def is_ws_def)
  from assms(2) have c2: "?c \<le> 32 \<or> 133 \<le> ?c"
    by (auto simp: py_isspace_def)
  from assms(3) have c3: "?c \<noteq> 32" by (simp add: is_ws_def)
  from c c2 c3 have mi: "match_integer s i = None"
    using assms(1) by (auto simp: match_integer_def nextchar_def Let_def)
  from c c2 c3 have "scan_constant s i = Inl (StopIteration i)"
    by (auto simp: scan_constant_def Let_def match_number_def mi)
  with c c2 c3 assms(1) show ?thesis
    by (subst scan_once.simps) (auto simp: Let_def)
qed

lemma json_loads_blank:
  assumes "is_blank w"
  shows "\<exists>e. json_loads w = Inl e"
proof -
  define i where "i = ws_end w 0"
  have "scan_once w i = Inl (StopIteration i)"
  proof (cases "i < length w")
    case True
    then have "\<not> is_ws (w ! i)"
      unfolding i_def by (rule ws_end_0_not_ws)
    moreover from assms True have "py_isspace (w ! i)"
      by (simp add: is_blank_def list_all_length)
    ultimately show ?thesis using True by (simp add: scan_once_space)
  next
    case False
    then show ?thesis by (subst scan_once.simps) simp
  qed
  then show ?thesis
    by (simp add: json_loads_def decode_def raw_decode_def i_def)
qed

lemma json_loads_not_blank: "json_loads w = Inr v \<Longrightarrow> \<not> is_blank w"
  using json_loads_blank [of w] by auto

subsection \<open>The decoder on concrete documents\<close>

text \<open>The unfolding rules that evaluate the decoder on a given string.\<close>

lemmas json_eval =
  json_loads_def decode_def raw_decode_def scan_once.simps JSONObject.simps JSONObject_loop.simps
  JSONArray.simps JSONArray_loop.simps scanstring_def scanstring_loop.simps scan_constant_def
  match_number_def match_integer_def match_frac_def match_exp_def digits_end_def is_digit_def
  parse_int_def ws_end_def nextchar_def in_ws_def is_ws_def slice_def hex4_def hexval_def
  BACKSLASH_def skip_ws2_def key_sep_def obj_delim_def arr_delim_def dict_def ustr_def Let_def
  str_JSONDecodeError_def lineno_def colno_def str_of_nat.simps

lemma loads_VALUE_42:
  \<open>json_loads (ustr ''{"VALUE": 42}'') = Inr (PyDict [(ustr ''VALUE'', PyInt 42)])\<close>
  by (simp add: json_eval)




lemma loads_not_json:
  "json_loads (ustr ''not json'') = Inl (JSONDecodeError (ustr ''Expecting value'') (ustr ''not json'') 0)"
  by (simp add: json_eval)

lemma str_not_json:
  "str_JSONDecodeError (JSONDecodeError (ustr ''Expecting value'') (ustr ''not json'') 0)
     = ustr ''Expecting value: line 1 column 1 (char 0)''"
  by (simp add: json_eval)


lemma loads_42: "json_loads (ustr ''42'') = Inr (PyInt 42)"
  by (simp add: json_eval)

subsection \<open>The outcomes of the compile functions\<close>

lemma compile_simplicity_blank:
  "is_blank code \<Longrightarrow> compile_simplicity code lg = (code_empty_result, lg)"
  using blank_check [of code] by (simp add: compile_simplicity_def code_empty_result_def)

lemma compile_simplicity_ok:
  "\<not> is_blank code \<Longrightarrow>
     compile_simplicity code lg =
       (\<lparr>cmr = Some placeholder_cmr, error = None, witness_data = PyNone\<rparr>,
        logger_info (ustr ''Compiling code: '' @ take 50 code @ ustr ''...'') lg)"
  using blank_check [of code]
  by (simp add: compile_simplicity_def placeholder_cmr_def Let_def)

lemma cww_blank_code:
  "is_blank code \<Longrightarrow> compile_with_witness code w lg = (Inr code_empty_result, lg)"
  using blank_check [of code] by (simp add: compile_with_witness_def code_empty_result_def)

lemma cww_blank_witness:
  "\<not> is_blank code \<Longrightarrow> is_blank w \<Longrightarrow>
     compile_with_witness code w lg =
       (Inr \<lparr>cmr = None, error = Some (ustr ''Witness data is empty''), witness_data = PyNone\<rparr>, lg)"
  using blank_check [of code] blank_check [of w] by (simp add: compile_with_witness_def)

lemma cww_invalid:
  "\<not> is_blank code \<Longrightarrow> \<not> is_blank w \<Longrightarrow> json_loads w = Inl e \<Longrightarrow>
     compile_with_witness code w lg =
       (Inr \<lparr>cmr = None, error = Some (ustr ''Invalid JSON: '' @ str_JSONDecodeError e),
             witness_data = PyNone\<rparr>, lg)"
  using blank_check [of code] blank_check [of w]
  by (simp add: compile_with_witness_def validate_json_def)

lemma cww_valid:
  "\<not> is_blank code \<Longrightarrow> json_loads w = Inr v \<Longrightarrow>
     compile_with_witness code w lg =
       (case py_len v of
          Inl exn \<Rightarrow>
            (Inl exn, logger_info (ustr ''Compiling with witness: '' @ take 50 code @ ustr ''...'') lg)
        | Inr n \<Rightarrow>
            (Inr \<lparr>cmr = Some placeholder_cmr, error = None, witness_data = v\<rparr>,
             logger_info (ustr ''Witness variables count: '' @ str_of_nat n)
               (logger_info (ustr ''Compiling with witness: '' @ take 50 code @ ustr ''...'') lg)))"
  using blank_check [of code] blank_check [of w] json_loads_not_blank [of w v]
  by (simp add: compile_with_witness_def validate_json_def placeholder_cmr_def Let_def
           split: sum.splits)

text \<open>Every run of \<open>compile_with_witness\<close> ends in one of five ways.\<close>

lemma cww_cases:
  obtains
    (code_empty) "is_blank code" "fst (compile_with_witness code w lg) = Inr code_empty_result"
  | (witness_empty) "\<not> is_blank code" "is_blank w"
      "fst (compile_with_witness code w lg) =
         Inr \<lparr>cmr = None, error = Some (ustr ''Witness data is empty''), witness_data = PyNone\<rparr>"
  | (invalid) e where "\<not> is_blank code" "\<not> is_blank w" "json_loads w = Inl e"
      "fst (compile_with_witness code w lg) =
         Inr \<lparr>cmr = None, error = Some (ustr ''Invalid JSON: '' @ str_JSONDecodeError e),
              witness_data = PyNone\<rparr>"
  | (raised) v exn where "\<not> is_blank code" "json_loads w = Inr v" "py_len v = Inl exn"
      "fst (compile_with_witness code w lg) = Inl exn"
  | (success) v n where "\<not> is_blank code" "json_loads w = Inr v" "py_len v = Inr n"
      "fst (compile_with_witness code w lg) =
         Inr \<lparr>cmr = Some placeholder_cmr, error = None, witness_data = v\<rparr>"
proof (cases "is_blank code")
  case True
  then show ?thesis using code_empty by (simp add: cww_blank_code)
next
  case nb: False
  show ?thesis
  proof (cases "json_loads w")
    case (Inl e)
    show ?thesis
    proof (cases "is_blank w")
      case True
      with nb show ?thesis using witness_empty by (simp add: cww_blank_witness)
    next
      case False
      with nb Inl show ?thesis using invalid by (simp add: cww_invalid)
    qed
  next
    case (Inr v)
    show ?thesis
    proof (cases "py_len v")
      case (Inl exn)
      with nb Inr show ?thesis using raised by (simp add: cww_valid)
    next
      case r: (Inr n)
      with nb Inr show ?thesis using success by (simp add: cww_valid)
    qed
  qed
qed

lemma placeholder_cmr_format: "length placeholder_cmr = 64 \<and> is_lower_hex placeholder_cmr"
  by (simp add: placeholder_cmr_def is_lower_hex_def ustr_def)

text \<open>
  A witness text that parses to a value without a length (a number, \<open>true\<close>, \<open>false\<close>,
  \<open>null\<close>) makes the second \<open>logger.info\<close> raise: the function returns no result.
\<close>

lemma cww_raises:
  "\<not> is_blank code \<Longrightarrow> json_loads w = Inr v \<Longrightarrow> py_len v = Inl exn \<Longrightarrow>
     fst (compile_with_witness code w lg) = Inl exn"
  by (simp add: cww_valid)

lemma cww_raises_42:
  "fst (compile_with_witness (ustr ''fn main() { witness::VALUE }'') (ustr ''42'') [])
     = Inl (Raised_TypeError (ustr ''object of type 'int' has no len()''))"
  by (simp add: cww_raises [OF not_blank_ustr_f loads_42] py_len_def)

section \<open>The claims of the specification\<close>

text \<open>
  In the claims, \<open>compile\<close> is \<open>compile_simplicity\<close> and \<open>compileWithWitness\<close> is
  \<open>compile_with_witness\<close>; a null field is \<open>None\<close> (\<open>PyNone\<close> for \<open>witness_data\<close>). A result
  is the first component of what a function returns, the second being the log. An
  ``empty'' source or witness is one that the emptiness check refuses: the empty string
  or a string of white space only (\<open>is_blank\<close>); a ``non-empty'' one passes the check.
  A witness string is valid JSON when \<open>json_loads\<close> returns a value for it.
\<close>

subsection \<open>C1: structural sensitivity\<close>

text \<open>
  C1 (as amended). The claim says that a structural change of the source changes the CMR.
  In the code the CMR does not depend on the source at all: for every two sources that
  pass the emptiness check, whatever their structure, \<open>compile_simplicity\<close> returns the
  same CMR, the literal \<open>placeholder_cmr\<close>.
\<close>

theorem C1_placeholder_cmr:
  assumes "\<not> is_blank S" and "\<not> is_blank S'"
  shows "cmr (fst (compile_simplicity S lg)) = Some placeholder_cmr
         \<and> cmr (fst (compile_simplicity S' lg')) = cmr (fst (compile_simplicity S lg))"
  using assms by (simp add: compile_simplicity_ok)

text \<open>C1, witness: two sources that differ in an operand.\<close>

theorem C1_placeholder_cmr_witness:
  "\<not> is_blank (ustr ''fn main() { jet::verify(true) }'')
   \<and> \<not> is_blank (ustr ''fn main() { jet::verify(false) }'')
   \<and> cmr (fst (compile_simplicity (ustr ''fn main() { jet::verify(true) }'') [])) = Some placeholder_cmr
   \<and> cmr (fst (compile_simplicity (ustr ''fn main() { jet::verify(false) }'') []))
       = cmr (fst (compile_simplicity (ustr ''fn main() { jet::verify(true) }'') []))"
proof -
  have a: "\<not> is_blank (ustr ''fn main() { jet::verify(true) }'')"
    by (rule not_blank_ustr_f)
  have b: "\<not> is_blank (ustr ''fn main() { jet::verify(false) }'')"
    by (rule not_blank_ustr_f)
  from a b C1_placeholder_cmr [OF a b, of "[]" "[]"] show ?thesis by blast
qed

text \<open>
  C1, counterexample to the claim as stated: exchanging the two operands of a comparison
  changes the structure of the program and leaves the CMR as it was.
\<close>

theorem C1_counterexample:
  "cmr (fst (compile_simplicity (ustr ''fn main() { assert!(jet::lt_32(1, 2)); }'') []))
     = cmr (fst (compile_simplicity (ustr ''fn main() { assert!(jet::lt_32(2, 1)); }'') []))
   \<and> cmr (fst (compile_simplicity (ustr ''fn main() { assert!(jet::lt_32(1, 2)); }'') []))
     = Some (ustr ''c40a10263f7436b4160acbef1c36fba4be4d95df181a968afeab5eac247adff7'')"
  by (simp add: compile_simplicity_ok not_blank_ustr_f placeholder_cmr_def)

subsection \<open>C2: witness independence\<close>



subsection \<open>C3: determinism\<close>

text \<open>
  C3. The result of \<open>compile_simplicity\<close> depends on the source string only: it is the same
  for every state of the log, the only state the function touches, and a second
  invocation, run in the state the first one left, returns the result of the first.
\<close>

theorem C3_determinism:
  "fst (compile_simplicity S lg) = fst (compile_simplicity S lg')
   \<and> fst (compile_simplicity S (snd (compile_simplicity S lg))) = fst (compile_simplicity S lg)"
  by (cases "is_blank S") (simp_all add: compile_simplicity_blank compile_simplicity_ok)

text \<open>C3, witness: the first scenario of the specification, with an empty and a used log.\<close>

theorem C3_determinism_witness:
  "fst (compile_simplicity (ustr ''mod param {} fn main() {}'') [])
     = fst (compile_simplicity (ustr ''mod param {} fn main() {}'') [ustr ''earlier message''])
   \<and> fst (compile_simplicity (ustr ''mod param {} fn main() {}'')
            (snd (compile_simplicity (ustr ''mod param {} fn main() {}'') [])))
     = fst (compile_simplicity (ustr ''mod param {} fn main() {}'') [])"
  by (rule C3_determinism)

subsection \<open>C4: a witness name missing from the map\<close>




subsection \<open>C5: empty source\<close>

text \<open>
  C5. For the empty source and every whitespace-only source, \<open>compile_simplicity\<close> returns
  a null CMR and the error \<open>Code is empty\<close>, and so does \<open>compile_with_witness\<close>
  whatever the witness string is; neither logs anything.
\<close>

theorem C5_empty_source:
  assumes "is_blank S"
  shows "compile_simplicity S lg
           = (\<lparr>cmr = None, error = Some (ustr ''Code is empty''), witness_data = PyNone\<rparr>, lg)
         \<and> compile_with_witness S W lg
           = (Inr \<lparr>cmr = None, error = Some (ustr ''Code is empty''), witness_data = PyNone\<rparr>, lg)"
  using assms by (simp add: compile_simplicity_blank cww_blank_code code_empty_result_def)

text \<open>C5, witness: the empty source, and a source of a space, a tab and a line feed.\<close>

theorem C5_empty_source_witness:
  \<open>is_blank []
   \<and> compile_simplicity [] []
       = (\<lparr>cmr = None, error = Some (ustr ''Code is empty''), witness_data = PyNone\<rparr>, [])
   \<and> compile_with_witness [] (ustr ''{"VALUE": 42}'') []
       = (Inr \<lparr>cmr = None, error = Some (ustr ''Code is empty''), witness_data = PyNone\<rparr>, [])
   \<and> is_blank (ustr '' '' @ [9, 10])
   \<and> compile_simplicity (ustr '' '' @ [9, 10]) []
       = (\<lparr>cmr = None, error = Some (ustr ''Code is empty''), witness_data = PyNone\<rparr>, [])
   \<and> compile_with_witness (ustr '' '' @ [9, 10]) (ustr ''not json'') []
       = (Inr \<lparr>cmr = None, error = Some (ustr ''Code is empty''), witness_data = PyNone\<rparr>, [])\<close>
  using blank_empty blank_ws
    C5_empty_source [OF blank_empty, of "[]" \<open>ustr ''{"VALUE": 42}''\<close>]
    C5_empty_source [OF blank_ws, of "[]" "ustr ''not json''"]
  by blast

subsection \<open>C6: malformed witness JSON\<close>




subsection \<open>C7: no partial success\<close>

text \<open>
  C7. In every result that \<open>compile_simplicity\<close> or \<open>compile_with_witness\<close> returns, the
  error is non-null exactly when the CMR is null, and a non-null error comes with null
  witness data.
\<close>

theorem C7_no_partial_success:
  "(error (fst (compile_simplicity S lg)) \<noteq> None \<longleftrightarrow> cmr (fst (compile_simplicity S lg)) = None)
   \<and> (error (fst (compile_simplicity S lg)) \<noteq> None
        \<longrightarrow> witness_data (fst (compile_simplicity S lg)) = PyNone)
   \<and> (\<forall>r. fst (compile_with_witness S W lg) = Inr r \<longrightarrow>
          (error r \<noteq> None \<longleftrightarrow> cmr r = None) \<and> (error r \<noteq> None \<longrightarrow> witness_data r = PyNone))"
proof (intro conjI allI impI)
  show "error (fst (compile_simplicity S lg)) \<noteq> None \<longleftrightarrow> cmr (fst (compile_simplicity S lg)) = None"
    by (cases "is_blank S")
       (simp_all add: compile_simplicity_blank compile_simplicity_ok code_empty_result_def)
  show "witness_data (fst (compile_simplicity S lg)) = PyNone"
    by (cases "is_blank S")
       (simp_all add: compile_simplicity_blank compile_simplicity_ok code_empty_result_def)
next
  fix r
  assume r: "fst (compile_with_witness S W lg) = Inr r"
  then show "error r \<noteq> None \<longleftrightarrow> cmr r = None"
    by (cases rule: cww_cases [of S W lg]) (auto simp: code_empty_result_def)
  assume "error r \<noteq> None"
  with r show "witness_data r = PyNone"
    by (cases rule: cww_cases [of S W lg]) (auto simp: code_empty_result_def)
qed

text \<open>C7, witness: an error result of each function.\<close>

theorem C7_no_partial_success_witness:
  "fst (compile_with_witness (ustr ''fn main() { witness::VALUE }'') (ustr ''not json'') [])
     = Inr \<lparr>cmr = None,
            error = Some (ustr ''Invalid JSON: Expecting value: line 1 column 1 (char 0)''),
            witness_data = PyNone\<rparr>
   \<and> error \<lparr>cmr = None,
            error = Some (ustr ''Invalid JSON: Expecting value: line 1 column 1 (char 0)''),
            witness_data = PyNone\<rparr> \<noteq> None
   \<and> cmr \<lparr>cmr = None,
            error = Some (ustr ''Invalid JSON: Expecting value: line 1 column 1 (char 0)''),
            witness_data = PyNone\<rparr> = None
   \<and> witness_data \<lparr>cmr = None,
            error = Some (ustr ''Invalid JSON: Expecting value: line 1 column 1 (char 0)''),
            witness_data = PyNone\<rparr> = PyNone
   \<and> error (fst (compile_simplicity [] [])) \<noteq> None
   \<and> cmr (fst (compile_simplicity [] [])) = None
   \<and> witness_data (fst (compile_simplicity [] [])) = PyNone"
proof -
  have c: "ustr ''Invalid JSON: '' @ ustr ''Expecting value: line 1 column 1 (char 0)''
             = ustr ''Invalid JSON: Expecting value: line 1 column 1 (char 0)''"
    by (simp add: ustr_def)
  have e: "fst (compile_with_witness (ustr ''fn main() { witness::VALUE }'') (ustr ''not json'') [])
     = Inr \<lparr>cmr = None,
            error = Some (ustr ''Invalid JSON: Expecting value: line 1 column 1 (char 0)''),
            witness_data = PyNone\<rparr>"
    by (simp add: cww_invalid [OF not_blank_ustr_f not_blank_ustr_n loads_not_json] str_not_json c)
  have f: "error (fst (compile_simplicity [] [])) \<noteq> None"
    by (simp add: compile_simplicity_blank [OF blank_empty] code_empty_result_def)
  from e f
    C7_no_partial_success [of "ustr ''fn main() { witness::VALUE }''" "[]" "ustr ''not json''"]
    C7_no_partial_success [of "[]" "[]" "[]"]
  show ?thesis by simp
qed

subsection \<open>C8: the witness is echoed on success\<close>

text \<open>
  C8. When \<open>compile_with_witness\<close> returns a result without error, the witness string is
  valid JSON and \<open>witness_data\<close> is the value \<open>json.loads\<close> returns for it.
\<close>

theorem C8_witness_echo:
  assumes "fst (compile_with_witness S W lg) = Inr r" and "error r = None"
  shows "json_loads W = Inr (witness_data r)"
  using assms by (cases rule: cww_cases [of S W lg]) (auto simp: code_empty_result_def)

text \<open>C8, witness: the third scenario of the specification.\<close>

theorem C8_witness_echo_witness:
  \<open>fst (compile_with_witness (ustr ''fn main() { witness::VALUE }'') (ustr ''{"VALUE": 42}'') [])
     = Inr \<lparr>cmr = Some placeholder_cmr, error = None,
            witness_data = PyDict [(ustr ''VALUE'', PyInt 42)]\<rparr>
   \<and> error \<lparr>cmr = Some placeholder_cmr, error = None,
            witness_data = PyDict [(ustr ''VALUE'', PyInt 42)]\<rparr> = None
   \<and> json_loads (ustr ''{"VALUE": 42}'')
       = Inr (witness_data \<lparr>cmr = Some placeholder_cmr, error = None,
            witness_data = PyDict [(ustr ''VALUE'', PyInt 42)]\<rparr>)\<close>
proof -
  have e: \<open>fst (compile_with_witness (ustr ''fn main() { witness::VALUE }'') (ustr ''{"VALUE": 42}'') [])
     = Inr \<lparr>cmr = Some placeholder_cmr, error = None,
            witness_data = PyDict [(ustr ''VALUE'', PyInt 42)]\<rparr>\<close>
    by (simp add: cww_valid [OF not_blank_ustr_f loads_VALUE_42] py_len_def)
  have n: "error \<lparr>cmr = Some placeholder_cmr, error = None,
            witness_data = PyDict [(ustr ''VALUE'', PyInt 42)]\<rparr> = None"
    by simp
  from e n C8_witness_echo [OF e n] show ?thesis by blast
qed

subsection \<open>C9: the format of the CMR\<close>

text \<open>
  C9. Every CMR that \<open>compile_simplicity\<close> or \<open>compile_with_witness\<close> returns is a string
  of 64 lowercase hexadecimal digits.
\<close>

theorem C9_cmr_format:
  "(cmr (fst (compile_simplicity S lg)) = Some h \<longrightarrow> length h = 64 \<and> is_lower_hex h)
   \<and> (fst (compile_with_witness S W lg) = Inr r \<longrightarrow> cmr r = Some h
        \<longrightarrow> length h = 64 \<and> is_lower_hex h)"
proof (intro conjI impI)
  assume "cmr (fst (compile_simplicity S lg)) = Some h"
  then have "h = placeholder_cmr"
    by (cases "is_blank S")
       (simp_all add: compile_simplicity_blank compile_simplicity_ok code_empty_result_def)
  then show "length h = 64" and "is_lower_hex h"
    using placeholder_cmr_format by simp_all
next
  assume "fst (compile_with_witness S W lg) = Inr r" and "cmr r = Some h"
  then have "h = placeholder_cmr"
    by (cases rule: cww_cases [of S W lg]) (auto simp: code_empty_result_def)
  then show "length h = 64" and "is_lower_hex h"
    using placeholder_cmr_format by simp_all
qed

text \<open>C9, witness.\<close>

theorem C9_cmr_format_witness:
  \<open>cmr (fst (compile_simplicity (ustr ''mod param {} fn main() {}'') []))
     = Some (ustr ''c40a10263f7436b4160acbef1c36fba4be4d95df181a968afeab5eac247adff7'')
   \<and> length (ustr ''c40a10263f7436b4160acbef1c36fba4be4d95df181a968afeab5eac247adff7'') = 64
   \<and> is_lower_hex (ustr ''c40a10263f7436b4160acbef1c36fba4be4d95df181a968afeab5eac247adff7'')
   \<and> fst (compile_with_witness (ustr ''mod param {} fn main() {}'') (ustr ''{"VALUE": 42}'') [])
       = Inr \<lparr>cmr = Some (ustr ''c40a10263f7436b4160acbef1c36fba4be4d95df181a968afeab5eac247adff7''),
              error = None, witness_data = PyDict [(ustr ''VALUE'', PyInt 42)]\<rparr>\<close>
proof -
  let ?h = "ustr ''c40a10263f7436b4160acbef1c36fba4be4d95df181a968afeab5eac247adff7''"
  have a: "cmr (fst (compile_simplicity (ustr ''mod param {} fn main() {}'') [])) = Some ?h"
    by (simp add: compile_simplicity_ok [OF not_blank_ustr_m] placeholder_cmr_def)
  have b: \<open>fst (compile_with_witness (ustr ''mod param {} fn main() {}'') (ustr ''{"VALUE": 42}'') [])
       = Inr \<lparr>cmr = Some ?h, error = None, witness_data = PyDict [(ustr ''VALUE'', PyInt 42)]\<rparr>\<close>
    by (simp add: cww_valid [OF not_blank_ustr_m loads_VALUE_42] py_len_def placeholder_cmr_def)
  from a b C9_cmr_format [of "ustr ''mod param {} fn main() {}''" "[]" ?h] show ?thesis
    by blast
qed

subsection \<open>C10: empty witness\<close>

text \<open>
  C10. For every non-empty source and every witness string that is empty or
  whitespace-only, \<open>compile_with_witness\<close> returns a null CMR and the error
  \<open>Witness data is empty\<close>; it does not fall back to compiling without witness, and it
  logs nothing.
\<close>

theorem C10_empty_witness:
  assumes "\<not> is_blank S" and "is_blank W"
  shows "compile_with_witness S W lg
           = (Inr \<lparr>cmr = None, error = Some (ustr ''Witness data is empty''),
                   witness_data = PyNone\<rparr>, lg)"
  using assms by (rule cww_blank_witness)

text \<open>C10, witness: the empty witness string, and one of a space, a tab and a line feed.\<close>

theorem C10_empty_witness_witness:
  "\<not> is_blank (ustr ''fn main() { witness::VALUE }'')
   \<and> is_blank []
   \<and> compile_with_witness (ustr ''fn main() { witness::VALUE }'') [] []
       = (Inr \<lparr>cmr = None, error = Some (ustr ''Witness data is empty''),
               witness_data = PyNone\<rparr>, [])
   \<and> is_blank (ustr '' '' @ [9, 10])
   \<and> compile_with_witness (ustr ''fn main() { witness::VALUE }'') (ustr '' '' @ [9, 10]) []
       = (Inr \<lparr>cmr = None, error = Some (ustr ''Witness data is empty''),
               witness_data = PyNone\<rparr>, [])"
proof -
  have a: "\<not> is_blank (ustr ''fn main() { witness::VALUE }'')"
    by (rule not_blank_ustr_f)
  from a blank_empty blank_ws
    C10_empty_witness [OF a blank_empty, of "[]"] C10_empty_witness [OF a blank_ws, of "[]"]
  show ?thesis by blast
qed

end
